theory Spec2Isabelle
  imports Complex_Main "HOL-Library.Word"
begin

section \<open>Values, errors and options\<close>

text \<open>
  The script \<^verbatim>\<open>covid.py\<close> reads a table of daily records, keeps the rows above a
  case threshold, adds six derived columns and computes the tick positions of the time
  axis before it saves the figure. The embedding follows the script line by line; the
  library calls it makes (pandas, datetime, str) are written out as the functions below.

  A floating-point value is a number or missing (NaN). Numbers are exact rationals here,
  not IEEE doubles, and every non-finite result of an operation (NaN, and the infinities
  that a division by zero gives) is the one value \<open>None\<close>.
\<close>

type_synonym val = "rat option"

datatype error = ValueError | IndexError | OverflowError | OutOfBounds

fun fadd :: "val \<Rightarrow> val \<Rightarrow> val" where
  "fadd (Some a) (Some b) = Some (a + b)"
| "fadd _ _ = None"

fun fmul :: "val \<Rightarrow> val \<Rightarrow> val" where
  "fmul (Some a) (Some b) = Some (a * b)"
| "fmul _ _ = None"

fun fdiv :: "val \<Rightarrow> val \<Rightarrow> val" where
  "fdiv (Some a) (Some b) = (if b = 0 then None else Some (a / b))"
| "fdiv _ _ = None"

text \<open>
  A cell of a numeric column of the feed, with the type \<^verbatim>\<open>read_csv\<close> gave its column:
  \<^verbatim>\<open>int64\<close> when every cell is an integer of the signed 64-bit range, \<^verbatim>\<open>uint64\<close> when
  every cell is a non-negative integer and one of them needs the unsigned range, and
  \<^verbatim>\<open>float64\<close> when a cell is missing or has a fraction. The sum of two columns of the
  same integer type stays in 64 bits and wraps around; any other sum is a sum of floats.
  Division, the rolling mean and a product with a float work on the cell as a float
  (\<open>to_float\<close>, which is exact here as all floats are).
\<close>

datatype cell = I64 "64 word" | U64 "64 word" | F64 val

fun to_float :: "cell \<Rightarrow> val" where
  "to_float (I64 i) = Some (of_int (sint i))"
| "to_float (U64 u) = Some (of_nat (unat u))"
| "to_float (F64 v) = v"

fun add_cells :: "cell \<Rightarrow> cell \<Rightarrow> cell" where
  "add_cells (I64 a) (I64 b) = I64 (a + b)"
| "add_cells (U64 a) (U64 b) = U64 (a + b)"
| "add_cells x y = F64 (fadd (to_float x) (to_float y))"

definition div_cells :: "cell \<Rightarrow> cell \<Rightarrow> val" where
  "div_cells x y = fdiv (to_float x) (to_float y)"

text \<open>
  \<^verbatim>\<open>column > threshold\<close> for one cell. A comparison with a missing value is false, so
  such a row is not selected.
\<close>

definition gt :: "cell \<Rightarrow> int \<Rightarrow> bool" where
  "gt c t = (case to_float c of Some a \<Rightarrow> of_int t < a | None \<Rightarrow> False)"

text \<open>
  A Python string is the list of its Unicode code points; \<open>lit\<close> turns an ASCII literal
  into one.
\<close>

type_synonym ustring = "nat list"

definition lit :: "string \<Rightarrow> ustring" where
  "lit s = map of_char s"

text \<open>
  \<^verbatim>\<open>get_options\<close>: the three command-line options after argparse's coercion
  (\<^verbatim>\<open>type=int\<close>, \<^verbatim>\<open>type=str\<close>), with their defaults. An option that is absent from the
  command line is \<open>None\<close> in the argument of \<open>get_options\<close>.
\<close>

record options =
  average :: int
  state :: "ustring option"
  positive_start :: int

definition get_options :: "int option \<Rightarrow> ustring option \<Rightarrow> int option \<Rightarrow> options" where
  "get_options avg st ps =
     \<lparr>average = (case avg of None \<Rightarrow> 7 | Some a \<Rightarrow> a),
      state = st,
      positive_start = (case ps of None \<Rightarrow> 1000 | Some p \<Rightarrow> p)\<rparr>"

section \<open>The table\<close>

text \<open>
  One row of the CSV file, with the columns the script reads. \<open>date\<close> is the integer
  \<^verbatim>\<open>YYYYMMDD\<close> of the feed. The six derived columns are floats.
\<close>

record DailyRecord =
  date :: int
  positive :: cell
  negative :: cell
  positiveIncrease :: cell
  deathIncrease :: cell
  death :: cell

record DerivedRecord = DailyRecord +
  infection_rate :: val
  infection_rate_avg :: val
  new_cases_avg :: val
  new_deaths_avg :: val
  death_rate :: val
  death_rate_avg :: val

section \<open>Rolling mean and shift\<close>

text \<open>
  \<^verbatim>\<open>Series.rolling(window=w, center=False).mean()\<close>, on the column as floats. A negative
  window is rejected with a ValueError when the rolling object is made, and a window of
  \<open>2^63\<close> or more, which does not fit the 64-bit window size, with an OverflowError.
  Otherwise position \<open>i\<close> holds the mean of the \<open>w\<close> values that end at \<open>i\<close>; it is
  missing when fewer than \<open>w\<close> values precede and include \<open>i\<close>, when one of them is
  missing (\<^verbatim>\<open>min_periods\<close> defaults to the window), and when the window is empty.
\<close>

definition window_mean :: "val list \<Rightarrow> val" where
  "window_mean ws =
     (if ws = [] \<or> None \<in> set ws then None
      else Some (sum_list (map the ws) / of_nat (length ws)))"

definition rolling_mean :: "nat \<Rightarrow> val list \<Rightarrow> val list" where
  "rolling_mean w xs =
     map (\<lambda>i. if i + 1 < w then None else window_mean (take w (drop (i + 1 - w) xs)))
       [0..<length xs]"

definition rolling :: "int \<Rightarrow> val list \<Rightarrow> error + val list" where
  "rolling w xs =
     (if w < 0 then Inl ValueError
      else if 2 ^ 63 \<le> w then Inl OverflowError
      else Inr (rolling_mean (nat w) xs))"

text \<open>
  \<^verbatim>\<open>Series.shift(p)\<close> moves the values by \<open>p\<close> positions and fills with missing values:
  towards the end for a positive \<open>p\<close>, towards the start for a negative one.
\<close>

definition shift :: "int \<Rightarrow> val list \<Rightarrow> val list" where
  "shift p xs =
     (let n = length xs in
      if 0 \<le> p then replicate (min (nat p) n) None @ take (n - nat p) xs
      else drop (nat (- p)) xs @ replicate (min (nat (- p)) n) None)"

text \<open>\<^verbatim>\<open>s.rolling(window=average, center=False).mean().shift(-average)\<close>\<close>

definition rolling_avg :: "int \<Rightarrow> val list \<Rightarrow> error + val list" where
  "rolling_avg w xs =
     (case rolling w xs of Inl e \<Rightarrow> Inl e | Inr ys \<Rightarrow> Inr (shift (- w) ys))"

section \<open>Region, filter and derived columns\<close>

text \<open>
  \<^verbatim>\<open>str.upper\<close> and \<^verbatim>\<open>str.lower\<close>. On a string of ASCII characters only, the 26
  letters change case and every other character stays. On any other string the result is
  that of the Unicode case conversion, which is not part of the script: it is the parameter
  \<open>cm\<close> of the functions below, one function for each direction.
\<close>

record casemap =
  unicode_upper :: "ustring \<Rightarrow> ustring"
  unicode_lower :: "ustring \<Rightarrow> ustring"

definition ascii :: "ustring \<Rightarrow> bool" where
  "ascii s = list_all (\<lambda>c. c < 128) s"

definition ascii_upper :: "nat \<Rightarrow> nat" where
  "ascii_upper c = (if 97 \<le> c \<and> c \<le> 122 then c - 32 else c)"

definition ascii_lower :: "nat \<Rightarrow> nat" where
  "ascii_lower c = (if 65 \<le> c \<and> c \<le> 90 then c + 32 else c)"

definition str_upper :: "casemap \<Rightarrow> ustring \<Rightarrow> ustring" where
  "str_upper cm s = (if ascii s then map ascii_upper s else unicode_upper cm s)"

definition str_lower :: "casemap \<Rightarrow> ustring \<Rightarrow> ustring" where
  "str_lower cm s = (if ascii s then map ascii_lower s else unicode_lower cm s)"

text \<open>
  Lines 22 to 29 of \<^verbatim>\<open>create_graphs\<close>. \<^verbatim>\<open>if opt.state:\<close> is false for an absent option
  and for the empty string.
\<close>

record region =
  prefix :: ustring
  url :: ustring
  outfile :: ustring

definition us_region :: region where
  "us_region =
     \<lparr>prefix = lit ''US'',
      url = lit ''https://covidtracking.com/api/v1/us/daily.csv'',
      outfile = lit ''covid_us.pdf''\<rparr>"

definition resolve_region :: "casemap \<Rightarrow> ustring option \<Rightarrow> region" where
  "resolve_region cm st =
     (case st of
        None \<Rightarrow> us_region
      | Some s \<Rightarrow>
          if s = [] then us_region
          else \<lparr>prefix = str_upper cm s,
                url = lit ''https://covidtracking.com/api/v1/states/'' @ str_lower cm s @
                      lit ''/daily.csv'',
                outfile = lit ''covid_'' @ s @ lit ''.pdf''\<rparr>)"

text \<open>
  The four panel titles, \<^verbatim>\<open>'{} COVID-19 ...\n{}'.format(prefix, url)\<close>; 10 is the
  line feed.
\<close>

definition titles_of :: "region \<Rightarrow> ustring list" where
  "titles_of r =
     map (\<lambda>t. prefix r @ lit t @ [10] @ url r)
       ['' COVID-19 New Positive Cases'', '' COVID-19 New Deaths'',
        '' COVID-19 Positive Test Rate'', '' COVID-19 Death Rate'']"

text \<open>Lines 35 and 36: the boolean mask and the selection of the rows it marks.\<close>

definition select_rows :: "int \<Rightarrow> DailyRecord list \<Rightarrow> DailyRecord list" where
  "select_rows threshold df = filter (\<lambda>r. gt (positive r) threshold) df"

text \<open>Lines 39 and 45: the two rates of one row.\<close>

definition infection_rate_of :: "DailyRecord \<Rightarrow> val" where
  "infection_rate_of r =
     fmul (div_cells (positive r) (add_cells (positive r) (negative r))) (Some 100)"

definition death_rate_of :: "DailyRecord \<Rightarrow> val" where
  "death_rate_of r = fmul (div_cells (death r) (positive r)) (Some 100)"

definition add_columns ::
  "DailyRecord \<Rightarrow> val \<Rightarrow> val \<Rightarrow> val \<Rightarrow> val \<Rightarrow> val \<Rightarrow> val \<Rightarrow> DerivedRecord" where
  "add_columns r ir ir_avg nc_avg nd_avg dr dr_avg =
     \<lparr>date = date r, positive = positive r, negative = negative r,
      positiveIncrease = positiveIncrease r, deathIncrease = deathIncrease r,
      death = death r,
      infection_rate = ir, infection_rate_avg = ir_avg, new_cases_avg = nc_avg,
      new_deaths_avg = nd_avg, death_rate = dr, death_rate_avg = dr_avg\<rparr>"

text \<open>Lines 39 to 46: the six column assignments, in the order of the script.\<close>

definition derive :: "int \<Rightarrow> DailyRecord list \<Rightarrow> error + DerivedRecord list" where
  "derive w df =
     (let ir = map infection_rate_of df in
      case rolling_avg w ir of Inl e \<Rightarrow> Inl e | Inr ir_avg \<Rightarrow>
     (case rolling_avg w (map (\<lambda>r. to_float (positiveIncrease r)) df) of
        Inl e \<Rightarrow> Inl e | Inr nc_avg \<Rightarrow>
     (case rolling_avg w (map (\<lambda>r. to_float (deathIncrease r)) df) of
        Inl e \<Rightarrow> Inl e | Inr nd_avg \<Rightarrow>
     (let dr = map death_rate_of df in
      case rolling_avg w dr of Inl e \<Rightarrow> Inl e | Inr dr_avg \<Rightarrow>
        Inr (map (\<lambda>i. add_columns (df ! i) (ir ! i) (ir_avg ! i) (nc_avg ! i)
                         (nd_avg ! i) (dr ! i) (dr_avg ! i))
               [0..<length df])))))"

section \<open>Dates and the time axis\<close>

text \<open>
  A parsed date is its proleptic Gregorian ordinal (\<^verbatim>\<open>date.toordinal()\<close>: day 1 is
  0001-01-01, a Monday), so \<^verbatim>\<open>weekday()\<close> is \<open>(ordinal + 6) mod 7\<close> with Monday 0, and
  adding a \<^verbatim>\<open>timedelta\<close> of \<open>k\<close> days adds \<open>k\<close>.
\<close>

definition is_leap :: "int \<Rightarrow> bool" where
  "is_leap y =
     (if y mod 400 = 0 then True else if y mod 100 = 0 then False else y mod 4 = 0)"

definition days_before_year :: "int \<Rightarrow> int" where
  "days_before_year y = (y - 1) * 365 + (y - 1) div 4 - (y - 1) div 100 + (y - 1) div 400"

definition days_in_month :: "int \<Rightarrow> int \<Rightarrow> int" where
  "days_in_month y m =
     (if m = 2 then (if is_leap y then 29 else 28)
      else if m = 4 \<or> m = 6 \<or> m = 9 \<or> m = 11 then 30 else 31)"

definition days_before_month :: "int \<Rightarrow> int \<Rightarrow> int" where
  "days_before_month y m = sum_list (map (days_in_month y) [1..m - 1])"

definition ymd2ord :: "int \<Rightarrow> int \<Rightarrow> int \<Rightarrow> int" where
  "ymd2ord y m d = days_before_year y + days_before_month y m + d"

definition weekday :: "int \<Rightarrow> int" where
  "weekday d = (d + 6) mod 7"

text \<open>
  The timestamps of pandas count nanoseconds in 64 bits: the midnights they hold run from
  1677-09-22 to 2262-04-11. A conversion or a date computation that leaves this range
  raises.
\<close>

definition in_range :: "int \<Rightarrow> bool" where
  "in_range d = (ymd2ord 1677 9 22 \<le> d \<and> d \<le> ymd2ord 2262 4 11)"

text \<open>
  Line 49, \<^verbatim>\<open>pandas.to_datetime(df['date'], format='%Y%m%d')\<close>, for one cell. The model
  accepts the integers \<^verbatim>\<open>YYYYMMDD\<close> of a calendar date within the range above; every other
  integer is a parse failure here.
\<close>

definition to_datetime :: "int \<Rightarrow> error + int" where
  "to_datetime n =
     (let y = n div 10000; m = n div 100 mod 100; d = n mod 100 in
      if 1 \<le> m \<and> m \<le> 12 \<and> 1 \<le> d \<and> d \<le> days_in_month y m \<and> in_range (ymd2ord y m d)
      then Inr (ymd2ord y m d) else Inl ValueError)"

fun to_datetime_list :: "int list \<Rightarrow> error + int list" where
  "to_datetime_list [] = Inr []"
| "to_datetime_list (n # ns) =
     (case to_datetime n of
        Inl e \<Rightarrow> Inl e
      | Inr d \<Rightarrow> (case to_datetime_list ns of Inl e \<Rightarrow> Inl e | Inr ds \<Rightarrow> Inr (d # ds)))"

text \<open>
  Lines 81 to 89. \<^verbatim>\<open>math.ceil(len(date)/7)\<close> is \<open>(n + 6) div 7\<close> (the quotient is a
  double in Python, exact enough for any table that fits in memory); \<^verbatim>\<open>date[-1]\<close> raises
  IndexError on the empty list. The result is the list of major ticks and the list of
  minor ticks.
\<close>

definition time_axis :: "int list \<Rightarrow> error + (int list \<times> int list)" where
  "time_axis ds =
     (let wks = (length ds + 6) div 7 + 1 in
      if ds = [] then Inl IndexError
      else
        let start = last ds - weekday (last ds);
            xticks = map (\<lambda>i. start + 7 * int i) [0..<wks];
            minor = map (\<lambda>i. start + int i) [0..<7 * wks]
        in if in_range start \<and> in_range (start + 7 * int wks - 1)
           then Inr (xticks, minor) else Inl OutOfBounds)"

section \<open>The pipeline\<close>

text \<open>
  \<^verbatim>\<open>create_graphs\<close>, with the table that \<^verbatim>\<open>pandas.read_csv(url)\<close> returned as its last
  argument and the Unicode case conversion as its first. The result is what the script hands to the figure before \<^verbatim>\<open>fig.savefig\<close>: the
  output file name, the titles, the table with its derived columns, the dates of the
  x axis and the ticks. An \<open>Inl\<close> is an exception that ends the run before the file is
  written. The fixed axis labels, the legend texts and the tick labels are left out.
\<close>

record figure =
  fig_region :: region
  titles :: "ustring list"
  table :: "DerivedRecord list"
  dates :: "int list"
  xticks :: "int list"
  minor_xticks :: "int list"

definition create_graphs ::
  "casemap \<Rightarrow> options \<Rightarrow> DailyRecord list \<Rightarrow> error + figure" where
  "create_graphs cm opt df0 =
     (let reg = resolve_region cm (state opt);
          df = select_rows (positive_start opt) df0 in
      case derive (average opt) df of Inl e \<Rightarrow> Inl e | Inr df' \<Rightarrow>
     (case to_datetime_list (map date df') of Inl e \<Rightarrow> Inl e | Inr ds \<Rightarrow>
     (case time_axis ds of Inl e \<Rightarrow> Inl e | Inr (major, minor) \<Rightarrow>
        Inr \<lparr>fig_region = reg, titles = titles_of reg, table = df', dates = ds,
             xticks = major, minor_xticks = minor\<rparr>)))"

section \<open>Sample tables\<close>

text \<open>
  Tables for the concrete runs below, with \<^verbatim>\<open>int64\<close> columns. \<open>sample_row d p inc\<close> is a
  row of date \<open>d\<close> with \<open>p\<close> cumulative positive tests, nine times as many negative ones,
  \<open>inc\<close> new cases, no new death and one cumulative death. \<open>sample_week\<close> holds eight
  consecutive days in ascending order, Monday 2020-03-23 to Monday 2020-03-30.
\<close>

definition sample_row :: "int \<Rightarrow> 64 word \<Rightarrow> 64 word \<Rightarrow> DailyRecord" where
  "sample_row d p inc =
     \<lparr>date = d, positive = I64 p, negative = I64 (9 * p), positiveIncrease = I64 inc,
      deathIncrease = I64 0, death = I64 1\<rparr>"

definition sample_week :: "DailyRecord list" where
  "sample_week =
     [sample_row 20200323 10 7, sample_row 20200324 10 0, sample_row 20200325 10 0,
      sample_row 20200326 10 0, sample_row 20200327 10 0, sample_row 20200328 10 0,
      sample_row 20200329 10 0, sample_row 20200330 10 0]"

text \<open>
  A case conversion for the runs. It agrees with Unicode on the strings made of the two
  code points U+00DF (small sharp s: \<^verbatim>\<open>SS\<close> in upper case, itself in lower case) and
  U+1E9E (capital sharp s: itself in upper case, U+00DF in lower case), and is applied to
  no other string with a character beyond ASCII.
\<close>

definition sharp_s :: casemap where
  "sharp_s =
     \<lparr>unicode_upper = (\<lambda>s. concat (map (\<lambda>c. if c = 223 then [83, 83] else [c]) s)),
      unicode_lower = (\<lambda>s. map (\<lambda>c. if c = 7838 then 223 else c) s)\<rparr>"

text \<open>
  Two days, Sunday 2020-03-29 and Monday 2020-03-30, and the figure that
  \<^verbatim>\<open>--average 1 --state ny --positive-start 5\<close> makes of them.
\<close>

definition sample_pair :: "DailyRecord list" where
  "sample_pair = [sample_row 20200329 10 7, sample_row 20200330 20 10]"

definition sample_figure :: figure where
  "sample_figure =
     \<lparr>fig_region =
        \<lparr>prefix = lit ''NY'',
         url = lit ''https://covidtracking.com/api/v1/states/ny/daily.csv'',
         outfile = lit ''covid_ny.pdf''\<rparr>,
      titles =
        [lit ''NY COVID-19 New Positive Cases'' @ [10] @
           lit ''https://covidtracking.com/api/v1/states/ny/daily.csv'',
         lit ''NY COVID-19 New Deaths'' @ [10] @
           lit ''https://covidtracking.com/api/v1/states/ny/daily.csv'',
         lit ''NY COVID-19 Positive Test Rate'' @ [10] @
           lit ''https://covidtracking.com/api/v1/states/ny/daily.csv'',
         lit ''NY COVID-19 Death Rate'' @ [10] @
           lit ''https://covidtracking.com/api/v1/states/ny/daily.csv''],
      table =
        [\<lparr>date = 20200329, positive = I64 10, negative = I64 90,
          positiveIncrease = I64 7, deathIncrease = I64 0, death = I64 1,
          infection_rate = Some 10, infection_rate_avg = Some 10, new_cases_avg = Some 10,
          new_deaths_avg = Some 0, death_rate = Some 10, death_rate_avg = Some 5\<rparr>,
         \<lparr>date = 20200330, positive = I64 20, negative = I64 180,
          positiveIncrease = I64 10, deathIncrease = I64 0, death = I64 1,
          infection_rate = Some 10, infection_rate_avg = None, new_cases_avg = None,
          new_deaths_avg = None, death_rate = Some 5, death_rate_avg = None\<rparr>],
      dates = [ymd2ord 2020 3 29, ymd2ord 2020 3 30],
      xticks = [ymd2ord 2020 3 30, ymd2ord 2020 4 6],
      minor_xticks = map (\<lambda>i. ymd2ord 2020 3 30 + i) [0..13]\<rparr>"

section \<open>Properties of the rolling average\<close>

text \<open>
  The rolling mean keeps the length of the series, and so does the shift. The main fact is
  \<open>shift_rolling_nth\<close>: after the shift by \<open>-w\<close>, position \<open>i\<close> holds the mean of the window
  that starts at position \<open>i + 1\<close>.
\<close>

lemma length_rolling_mean [simp]: "length (rolling_mean w xs) = length xs"
  by (simp add: rolling_mean_def)

lemma length_shift [simp]: "length (shift p xs) = length xs"
  by (auto simp: shift_def Let_def)

lemma rolling_mean_nth:
  "i < length xs \<Longrightarrow>
   rolling_mean w xs ! i =
     (if i + 1 < w then None else window_mean (take w (drop (i + 1 - w) xs)))"
  by (simp add: rolling_mean_def)

lemma window_mean_Nil [simp]: "window_mean [] = None"
  by (simp add: window_mean_def)

lemma shift_rolling_nth:
  assumes "i < length xs"
  shows "shift (- int w) (rolling_mean w xs) ! i =
           (if 0 < w \<and> i + w < length xs then window_mean (take w (drop (Suc i) xs))
            else None)"
proof (cases "w = 0")
  case True
  then show ?thesis using assms by (simp add: shift_def rolling_mean_nth)
next
  case wpos: False
  then have neg: "\<not> 0 \<le> - int w" by simp
  have sh: "shift (- int w) (rolling_mean w xs) =
              drop w (rolling_mean w xs) @ replicate (min w (length xs)) None"
    using neg by (simp add: shift_def Let_def)
  show ?thesis
  proof (cases "i + w < length xs")
    case True
    then have "i < length (drop w (rolling_mean w xs))" by simp
    then have "shift (- int w) (rolling_mean w xs) ! i = rolling_mean w xs ! (w + i)"
      using True by (simp add: sh nth_append)
    also have "\<dots> = window_mean (take w (drop (Suc i) xs))"
      using True by (simp add: rolling_mean_nth)
    finally show ?thesis using True wpos by simp
  next
    case False
    then have "\<not> i < length (drop w (rolling_mean w xs))" by simp
    moreover have "i - (length xs - w) < min w (length xs)"
      using assms False wpos by arith
    ultimately show ?thesis using False by (simp add: sh nth_append)
  qed
qed

lemma rolling_avg_neg: "w < 0 \<Longrightarrow> rolling_avg w xs = Inl ValueError"
  by (simp add: rolling_avg_def rolling_def)

lemma rolling_avg_big: "2 ^ 63 \<le> w \<Longrightarrow> rolling_avg w xs = Inl OverflowError"
  by (simp add: rolling_avg_def rolling_def)

lemma rolling_avg_nonneg:
  "0 \<le> w \<Longrightarrow> w < 2 ^ 63 \<Longrightarrow>
   rolling_avg w xs = Inr (shift (- w) (rolling_mean (nat w) xs))"
  by (simp add: rolling_avg_def rolling_def)

lemma rolling_avg_Inr:
  assumes "rolling_avg w xs = Inr ys"
  shows "0 \<le> w" and "length ys = length xs"
    and "i < length xs \<Longrightarrow>
         ys ! i = (if 0 < w \<and> i + nat w < length xs
                   then window_mean (take (nat w) (drop (Suc i) xs)) else None)"
    and "w < 2 ^ 63"
proof -
  show w: "0 \<le> w" using assms by (auto simp: rolling_avg_def rolling_def split: if_splits)
  show b: "w < 2 ^ 63"
    using assms by (auto simp: rolling_avg_def rolling_def split: if_splits)
  have ys: "ys = shift (- int (nat w)) (rolling_mean (nat w) xs)"
    using assms w b by (simp add: rolling_avg_nonneg)
  show "length ys = length xs" by (simp add: ys)
  show "ys ! i = (if 0 < w \<and> i + nat w < length xs
                   then window_mean (take (nat w) (drop (Suc i) xs)) else None)"
    if "i < length xs"
    using that w shift_rolling_nth [of i xs "nat w"] unfolding ys by simp
qed

lemma take_drop_window:
  "i + w < length xs \<Longrightarrow> take w (drop (Suc i) xs) = map (\<lambda>j. xs ! j) [Suc i..<Suc i + w]"
  by (rule nth_equalityI) (simp_all del: upt_Suc)

lemma window_mean_Some:
  "window_mean ws = Some v \<longleftrightarrow>
     ws \<noteq> [] \<and> None \<notin> set ws \<and> v = sum_list (map the ws) / of_nat (length ws)"
  by (auto simp: window_mean_def)

lemma window_mean_defined:
  assumes "ws \<noteq> []" and "None \<notin> set ws"
  shows "window_mean ws \<noteq> None"
  using assms by (simp add: window_mean_def)

lemma window_mean_replicate:
  "0 < k \<Longrightarrow> window_mean (replicate k (Some c)) = Some c"
  by (simp add: window_mean_def sum_list_replicate)

section \<open>Structure of a run\<close>

text \<open>
  What a successful run says about its parts, and the rows of the derived table in terms
  of the rows of the selected one.
\<close>

lemma derive_neg: "w < 0 \<Longrightarrow> derive w df = Inl ValueError"
  by (simp add: derive_def rolling_avg_neg)

lemma derive_big: "2 ^ 63 \<le> w \<Longrightarrow> derive w df = Inl OverflowError"
  by (simp add: derive_def rolling_avg_big)

lemma derive_nonneg:
  assumes "0 \<le> w" and "w < 2 ^ 63"
  shows "derive w df =
    Inr (map (\<lambda>i. add_columns (df ! i)
                 (infection_rate_of (df ! i))
                 (shift (- w) (rolling_mean (nat w) (map infection_rate_of df)) ! i)
                 (shift (- w)
                    (rolling_mean (nat w) (map (\<lambda>r. to_float (positiveIncrease r)) df)) ! i)
                 (shift (- w)
                    (rolling_mean (nat w) (map (\<lambda>r. to_float (deathIncrease r)) df)) ! i)
                 (death_rate_of (df ! i))
                 (shift (- w) (rolling_mean (nat w) (map death_rate_of df)) ! i))
           [0..<length df])"
  using assms by (simp add: derive_def rolling_avg_nonneg Let_def)

lemma derive_Inr:
  assumes "derive w df = Inr df'"
  shows "0 \<le> w" and "length df' = length df" and "w < 2 ^ 63"
proof -
  show w: "0 \<le> w" using assms derive_neg [of w df] by (cases "w < 0") simp_all
  show b: "w < 2 ^ 63" using assms derive_big [of w df] by (cases "2 ^ 63 \<le> w") simp_all
  show "length df' = length df" using assms by (auto simp: derive_nonneg [OF w b, of df])
qed

lemma create_graphs_Inr:
  assumes "create_graphs cm opt df0 = Inr fig"
  shows "derive (average opt) (select_rows (positive_start opt) df0) = Inr (table fig)"
    and "to_datetime_list (map date (table fig)) = Inr (dates fig)"
    and "time_axis (dates fig) = Inr (xticks fig, minor_xticks fig)"
    and "fig_region fig = resolve_region cm (state opt)"
    and "titles fig = titles_of (resolve_region cm (state opt))"
  using assms by (auto simp: create_graphs_def Let_def split: sum.splits prod.splits)


lemma derive_nth:
  assumes "derive w df = Inr df'" and "i < length df"
  shows "df' ! i = add_columns (df ! i)
                 (infection_rate_of (df ! i))
                 (shift (- w) (rolling_mean (nat w) (map infection_rate_of df)) ! i)
                 (shift (- w)
                    (rolling_mean (nat w) (map (\<lambda>r. to_float (positiveIncrease r)) df)) ! i)
                 (shift (- w)
                    (rolling_mean (nat w) (map (\<lambda>r. to_float (deathIncrease r)) df)) ! i)
                 (death_rate_of (df ! i))
                 (shift (- w) (rolling_mean (nat w) (map death_rate_of df)) ! i)"
proof -
  have w: "0 \<le> w" and b: "w < 2 ^ 63" using derive_Inr [OF assms(1)] by simp_all
  show ?thesis using assms by (auto simp: derive_nonneg [OF w b, of df])
qed

lemma truncate_add_columns [simp]:
  "DailyRecord.truncate (add_columns r a b c d e f) = r"
  by (simp add: add_columns_def DailyRecord.truncate_def)

lemma derive_truncate:
  assumes "derive w df = Inr df'"
  shows "map DailyRecord.truncate df' = df"
proof (rule nth_equalityI)
  show "length (map DailyRecord.truncate df') = length df"
    using derive_Inr(2) [OF assms] by simp
next
  fix i assume "i < length (map DailyRecord.truncate df')"
  then have i: "i < length df" using derive_Inr(2) [OF assms] by simp
  then show "map DailyRecord.truncate df' ! i = df ! i"
    using derive_Inr(2) [OF assms] by (simp add: derive_nth [OF assms i])
qed

lemma add_columns_sel [simp]:
  "date (add_columns r a b c d e f) = date r"
  "positive (add_columns r a b c d e f) = positive r"
  "negative (add_columns r a b c d e f) = negative r"
  "positiveIncrease (add_columns r a b c d e f) = positiveIncrease r"
  "deathIncrease (add_columns r a b c d e f) = deathIncrease r"
  "death (add_columns r a b c d e f) = death r"
  "infection_rate (add_columns r a b c d e f) = a"
  "infection_rate_avg (add_columns r a b c d e f) = b"
  "new_cases_avg (add_columns r a b c d e f) = c"
  "new_deaths_avg (add_columns r a b c d e f) = d"
  "death_rate (add_columns r a b c d e f) = e"
  "death_rate_avg (add_columns r a b c d e f) = f"
  by (simp_all add: add_columns_def)

lemma truncate_sel [simp]:
  "date (DailyRecord.truncate r) = date r"
  "positive (DailyRecord.truncate r) = positive r"
  "negative (DailyRecord.truncate r) = negative r"
  "positiveIncrease (DailyRecord.truncate r) = positiveIncrease r"
  "deathIncrease (DailyRecord.truncate r) = deathIncrease r"
  "death (DailyRecord.truncate r) = death r"
  by (simp_all add: DailyRecord.truncate_def)

lemma table_column_avg:
  assumes run: "create_graphs cm opt df0 = Inr fig"
    and i: "i < length (table fig)"
  shows "infection_rate_avg (table fig ! i) =
           (if 0 < average opt \<and> i + nat (average opt) < length (table fig)
            then window_mean (map (\<lambda>j. infection_rate (table fig ! j))
                                [Suc i..<Suc i + nat (average opt)])
            else None)"
    and "new_cases_avg (table fig ! i) =
           (if 0 < average opt \<and> i + nat (average opt) < length (table fig)
            then window_mean (map (\<lambda>j. to_float (positiveIncrease (table fig ! j)))
                                [Suc i..<Suc i + nat (average opt)])
            else None)"
    and "new_deaths_avg (table fig ! i) =
           (if 0 < average opt \<and> i + nat (average opt) < length (table fig)
            then window_mean (map (\<lambda>j. to_float (deathIncrease (table fig ! j)))
                                [Suc i..<Suc i + nat (average opt)])
            else None)"
    and "death_rate_avg (table fig ! i) =
           (if 0 < average opt \<and> i + nat (average opt) < length (table fig)
            then window_mean (map (\<lambda>j. death_rate (table fig ! j))
                                [Suc i..<Suc i + nat (average opt)])
            else None)"
proof -
  define w where "w = average opt"
  define df where "df = select_rows (positive_start opt) df0"
  have d: "derive w df = Inr (table fig)"
    using create_graphs_Inr(1) [OF run] by (simp add: w_def df_def)
  have w: "0 \<le> w" and len: "length (table fig) = length df"
    using derive_Inr(1,2) [OF d] by simp_all
  have i': "i < length df" using i len by simp
  have row: "\<And>j. j < length df \<Longrightarrow> table fig ! j = add_columns (df ! j)
                 (infection_rate_of (df ! j))
                 (shift (- w) (rolling_mean (nat w) (map infection_rate_of df)) ! j)
                 (shift (- w)
                    (rolling_mean (nat w) (map (\<lambda>r. to_float (positiveIncrease r)) df)) ! j)
                 (shift (- w)
                    (rolling_mean (nat w) (map (\<lambda>r. to_float (deathIncrease r)) df)) ! j)
                 (death_rate_of (df ! j))
                 (shift (- w) (rolling_mean (nat w) (map death_rate_of df)) ! j)"
    by (rule derive_nth [OF d])
  have avg: "shift (- w) (rolling_mean (nat w) (map f df)) ! i =
          (if 0 < w \<and> i + nat w < length df
           then window_mean (map (\<lambda>j. f (df ! j)) [Suc i..<Suc i + nat w]) else None)"
    for f :: "DailyRecord \<Rightarrow> val"
  proof -
    have "shift (- w) (rolling_mean (nat w) (map f df)) ! i =
          (if 0 < nat w \<and> i + nat w < length (map f df)
           then window_mean (take (nat w) (drop (Suc i) (map f df))) else None)"
      using shift_rolling_nth [of i "map f df" "nat w"] i' w by simp
    moreover have "take (nat w) (drop (Suc i) (map f df)) =
                   map (\<lambda>j. f (df ! j)) [Suc i..<Suc i + nat w]"
      if "i + nat w < length df"
      using take_drop_window [of i "nat w" "map f df"] that by (simp del: upt_Suc)
    ultimately show ?thesis using w by (simp del: upt_Suc)
  qed
  have gen: "h (table fig ! i) =
           (if 0 < w \<and> i + nat w < length (table fig)
            then window_mean (map (\<lambda>j. g (table fig ! j)) [Suc i..<Suc i + nat w])
            else None)"
    if h: "h (table fig ! i) = shift (- w) (rolling_mean (nat w) (map f df)) ! i"
      and g: "\<And>j. j < length df \<Longrightarrow> g (table fig ! j) = f (df ! j)"
    for h g :: "DerivedRecord \<Rightarrow> val" and f :: "DailyRecord \<Rightarrow> val"
  proof (cases "0 < w \<and> i + nat w < length df")
    case True
    have "map (\<lambda>j. g (table fig ! j)) [Suc i..<Suc i + nat w] =
          map (\<lambda>j. f (df ! j)) [Suc i..<Suc i + nat w]"
      by (rule map_cong [OF refl]) (use True g in auto)
    then show ?thesis using True by (simp only: h avg len if_True)
  next
    case False
    then show ?thesis by (simp only: h avg len if_False)
  qed
  show "infection_rate_avg (table fig ! i) =
           (if 0 < average opt \<and> i + nat (average opt) < length (table fig)
            then window_mean (map (\<lambda>j. infection_rate (table fig ! j))
                                [Suc i..<Suc i + nat (average opt)])
            else None)"
    unfolding w_def [symmetric] by (rule gen [of _ infection_rate_of]) (simp_all add: row i')
  show "new_cases_avg (table fig ! i) =
           (if 0 < average opt \<and> i + nat (average opt) < length (table fig)
            then window_mean (map (\<lambda>j. to_float (positiveIncrease (table fig ! j)))
                                [Suc i..<Suc i + nat (average opt)])
            else None)"
    unfolding w_def [symmetric] by (rule gen [of _ "\<lambda>r. to_float (positiveIncrease r)"]) (simp_all add: row i')
  show "new_deaths_avg (table fig ! i) =
           (if 0 < average opt \<and> i + nat (average opt) < length (table fig)
            then window_mean (map (\<lambda>j. to_float (deathIncrease (table fig ! j)))
                                [Suc i..<Suc i + nat (average opt)])
            else None)"
    unfolding w_def [symmetric] by (rule gen [of _ "\<lambda>r. to_float (deathIncrease r)"]) (simp_all add: row i')
  show "death_rate_avg (table fig ! i) =
           (if 0 < average opt \<and> i + nat (average opt) < length (table fig)
            then window_mean (map (\<lambda>j. death_rate (table fig ! j))
                                [Suc i..<Suc i + nat (average opt)])
            else None)"
    unfolding w_def [symmetric] by (rule gen [of _ death_rate_of]) (simp_all add: row i')
qed

section \<open>Rates and the filter\<close>


text \<open>
  An \<^verbatim>\<open>int64\<close> row with \<open>2^63 - 1\<close> positive tests and one negative test: the sum wraps to
  \<open>- 2^63\<close> and the infection rate is negative.
\<close>

lemma int64_sum_wraps:
  "to_float (add_cells (I64 (2 ^ 63 - 1)) (I64 1)) = Some (- (2 ^ 63)) \<and>
   infection_rate_of
     \<lparr>date = 20200323, positive = I64 (2 ^ 63 - 1), negative = I64 1,
      positiveIncrease = I64 0, deathIncrease = I64 0, death = I64 0\<rparr> =
     Some (- (2 ^ 63 - 1) / 2 ^ 63 * 100)"
  by code_simp



lemma gt_iff: "gt c t \<longleftrightarrow> (\<exists>p. to_float c = Some p \<and> of_int t < p)"
  by (simp add: gt_def split: option.splits)

lemma select_rows_crossing:
  assumes def: "None \<notin> set (map (\<lambda>r. to_float (positive r)) df)"
    and mono: "sorted (map (\<lambda>r. the (to_float (positive r))) df)"
    and k: "k < length df"
    and above: "of_int t < the (to_float (positive (df ! k)))"
    and below: "\<forall>i<k. the (to_float (positive (df ! i))) \<le> of_int t"
  shows "select_rows t df = drop k df"
proof -
  have some: "to_float (positive r) = Some (the (to_float (positive r)))"
    if "r \<in> set df" for r
    using def that by (cases "to_float (positive r)") force+
  have lo: "\<not> gt (positive r) t" if "r \<in> set (take k df)" for r
  proof -
    from that obtain i where i: "i < k" "i < length df" and r: "r = df ! i"
      by (auto simp: in_set_conv_nth)
    have "r \<in> set df" using r i by simp
    from some [OF this] below i r show ?thesis by (auto simp: gt_iff)
  qed
  have hi: "gt (positive r) t" if "r \<in> set (drop k df)" for r
  proof -
    from that obtain j where j: "j < length df - k" and r: "r = df ! (k + j)"
      by (auto simp: in_set_conv_nth)
    have kj: "k + j < length df" using j by simp
    have "the (to_float (positive (df ! k))) \<le> the (to_float (positive (df ! (k + j))))"
      using sorted_nth_mono [OF mono, of k "k + j"] kj k by simp
    then have "of_int t < the (to_float (positive r))" using above r by simp
    moreover have "r \<in> set df" using r kj by simp
    ultimately show ?thesis using some [of r] by (auto simp: gt_iff)
  qed
  have "select_rows t df = filter (\<lambda>r. gt (positive r) t) (take k df @ drop k df)"
    by (simp add: select_rows_def)
  also have "\<dots> = filter (\<lambda>r. gt (positive r) t) (take k df) @
                   filter (\<lambda>r. gt (positive r) t) (drop k df)"
    by (rule filter_append)
  also have "filter (\<lambda>r. gt (positive r) t) (take k df) = []"
    using lo by (simp add: filter_empty_conv)
  also have "filter (\<lambda>r. gt (positive r) t) (drop k df) = drop k df"
    using hi by (simp add: filter_id_conv)
  finally show ?thesis by simp
qed

section \<open>Dates and ticks\<close>

lemma to_datetime_list_length:
  "to_datetime_list ns = Inr ds \<Longrightarrow> length ds = length ns"
  by (induction ns arbitrary: ds) (auto split: sum.splits)

lemma time_axis_Inr:
  assumes "time_axis ds = Inr (major, minor)"
  shows "ds \<noteq> []"
    and "major = map (\<lambda>i. last ds - weekday (last ds) + 7 * int i)
                   [0..<(length ds + 6) div 7 + 1]"
    and "minor = map (\<lambda>i. last ds - weekday (last ds) + int i)
                   [0..<7 * ((length ds + 6) div 7 + 1)]"
  using assms by (auto simp: time_axis_def Let_def split: if_splits)

lemma ceiling_sevenths: "\<lceil>of_nat n / (7::rat)\<rceil> = int ((n + 6) div 7)"
proof -
  have "\<lceil>of_nat n / (7::rat)\<rceil> = \<lceil>of_int (int n) / (of_int 7 :: rat)\<rceil>" by simp
  also have "\<dots> = - (- int n div 7)" by (rule ceiling_divide_eq_div)
  also have "\<dots> = int ((n + 6) div 7)" by (simp add: zdiv_int)
  finally show ?thesis .
qed

lemma weekday_range: "0 \<le> weekday d" "weekday d < 7"
  by (simp_all add: weekday_def)

lemma weekday_start: "weekday (d - weekday d) = 0"
  unfolding weekday_def by presburger

section \<open>Letter case\<close>

















section \<open>The sample run\<close>

text \<open>The ordinals of the sample dates, and the run on \<open>sample_pair\<close>.\<close>

lemma sample_dates:
  "ymd2ord 2020 3 29 = 737513" "ymd2ord 2020 3 30 = 737514" "ymd2ord 2020 4 6 = 737521"
  "ymd2ord 2020 3 23 = 737507" "ymd2ord 2020 4 13 = 737528"
  by code_simp+

lemma sample_run:
  "create_graphs sharp_s (get_options (Some 1) (Some (lit ''ny'')) (Some 5)) sample_pair =
     Inr sample_figure"
  by code_simp


section \<open>The claims\<close>

text \<open>
  Claim C1, as the script computes it. In the table of a run, with \<open>w\<close> the value of
  \<^verbatim>\<open>--average\<close>, the averaged value at row \<open>i\<close> of each of the four averaged columns is
  the mean of the \<open>w\<close> raw values at rows \<open>i + 1\<close> to \<open>i + w\<close>: the window starts one row
  after \<open>i\<close>, since the rolling mean that ends at row \<open>i + w\<close> is moved back by \<open>w\<close> rows.
  The value is missing when \<open>w\<close> is 0, when the window passes the end of the table and
  when a raw value of the window is missing.
\<close>

theorem C1_shifted_window:
  assumes "create_graphs cm opt df0 = Inr fig" and "i < length (table fig)"
    and "w = nat (average opt)"
  shows
    "infection_rate_avg (table fig ! i) =
       (if 0 < w \<and> i + w < length (table fig)
        then window_mean (map (\<lambda>j. infection_rate (table fig ! j)) [i + 1..<i + 1 + w])
        else None) \<and>
     death_rate_avg (table fig ! i) =
       (if 0 < w \<and> i + w < length (table fig)
        then window_mean (map (\<lambda>j. death_rate (table fig ! j)) [i + 1..<i + 1 + w])
        else None) \<and>
     new_cases_avg (table fig ! i) =
       (if 0 < w \<and> i + w < length (table fig)
        then window_mean (map (\<lambda>j. to_float (positiveIncrease (table fig ! j)))
                            [i + 1..<i + 1 + w])
        else None) \<and>
     new_deaths_avg (table fig ! i) =
       (if 0 < w \<and> i + w < length (table fig)
        then window_mean (map (\<lambda>j. to_float (deathIncrease (table fig ! j)))
                            [i + 1..<i + 1 + w])
        else None)"
proof -
  have w: "(0 < w) = (0 < average opt)" using assms(3) by simp
  show ?thesis
    unfolding w assms(3)
    using table_column_avg [OF assms(1,2)] by (simp del: upt_Suc)
qed

text \<open>
  With \<^verbatim>\<open>--average 7 --positive-start 5\<close> on the eight days of \<open>sample_week\<close>, the
  average of new cases at row 0 is the mean of rows 1 to 7, which is 0.
\<close>

theorem C1_shifted_window_witness:
  "case create_graphs sharp_s (get_options (Some 7) None (Some 5)) sample_week of
     Inl e \<Rightarrow> False
   | Inr fig \<Rightarrow>
       new_cases_avg (table fig ! 0) =
         window_mean (map (\<lambda>j. to_float (positiveIncrease (table fig ! j))) [1..<8]) \<and>
       new_cases_avg (table fig ! 0) = Some 0"
proof (cases "create_graphs sharp_s (get_options (Some 7) None (Some 5)) sample_week")
  case (Inl e)
  moreover have "\<not> isl (create_graphs sharp_s (get_options (Some 7) None (Some 5)) sample_week)"
    by code_simp
  ultimately show ?thesis by simp
next
  case (Inr fig)
  have "map_sum id (map new_cases_avg \<circ> table)
     (create_graphs sharp_s (get_options (Some 7) None (Some 5)) sample_week) =
       Inr [Some 0, None, None, None, None, None, None, None]"
    by code_simp
  then have col: "map new_cases_avg (table fig) =
      [Some 0, None, None, None, None, None, None, None]"
    by (simp add: Inr)
  have "length (map new_cases_avg (table fig)) = 8" unfolding col by simp
  then have len: "length (table fig) = 8" by simp
  have "map new_cases_avg (table fig) ! 0 = Some 0" unfolding col by simp
  then have v: "new_cases_avg (table fig ! 0) = Some 0" using len by simp
  have av: "nat (average (get_options (Some 7) None (Some 5))) = 7"
    by (simp add: get_options_def)
  have "new_cases_avg (table fig ! 0) =
         window_mean (map (\<lambda>j. to_float (positiveIncrease (table fig ! j))) [0 + 1..<0 + 1 + 7])"
    using C1_shifted_window [OF Inr, of 0 7] len av by simp
  then have "new_cases_avg (table fig ! 0) =
         window_mean (map (\<lambda>j. to_float (positiveIncrease (table fig ! j))) [1..<8])"
    by (simp del: upt_Suc)
  then show ?thesis using v by (simp add: Inr del: upt_Suc)
qed

text \<open>
  All eight rows are kept, the mean of rows 0 to 6 of \<^verbatim>\<open>positiveIncrease\<close> is 1 and the
  script's \<^verbatim>\<open>new_cases_avg\<close> at row 0 is 0.
\<close>

theorem C1_shifted_window_counterexample:
  "select_rows 5 sample_week = sample_week \<and>
   map_sum id (map new_cases_avg \<circ> table)
     (create_graphs sharp_s (get_options (Some 7) None (Some 5)) sample_week) =
   Inr [Some 0, None, None, None, None, None, None, None] \<and>
   window_mean (map (\<lambda>r. to_float (positiveIncrease r)) (take 7 sample_week)) = Some 1"
  by code_simp

text \<open>
  Claim C2 is what one would expect of the script and not what it does. When every row
  has \<open>positive\<close> at or below the threshold the filtered table is empty; the six column
  assignments and the date conversion go through on the empty table, and
  \<^verbatim>\<open>date[-1]\<close> on line 82 raises IndexError before \<^verbatim>\<open>fig.savefig\<close> is reached (with an
  \<^verbatim>\<open>--average\<close> that line 40 rejects, below 0 or from \<open>2^63\<close> on, the run ends there). No
  file is written.
\<close>

theorem C2_empty_series_raises:
  assumes "\<forall>r\<in>set df0.
             \<exists>p. to_float (positive r) = Some p \<and> p \<le> of_int (positive_start opt)"
  shows "create_graphs cm opt df0 =
           Inl (if average opt < 0 then ValueError
                else if 2 ^ 63 \<le> average opt then OverflowError else IndexError)"
proof -
  have sel: "select_rows (positive_start opt) df0 = []"
    using assms by (auto simp: select_rows_def filter_empty_conv gt_iff)
  consider (neg) "average opt < 0" | (big) "2 ^ 63 \<le> average opt"
    | (ok) "0 \<le> average opt" "average opt < 2 ^ 63"
    by linarith
  then show ?thesis
  proof cases
    case neg
    then show ?thesis by (simp add: create_graphs_def sel derive_neg)
  next
    case big
    then have "\<not> average opt < 0" by simp
    then show ?thesis using big by (simp add: create_graphs_def sel derive_big)
  next
    case ok
    then have "derive (average opt) [] = Inr []" by (simp add: derive_nonneg)
    moreover have "\<not> average opt < 0" "\<not> 2 ^ 63 \<le> average opt" using ok by simp_all
    ultimately show ?thesis by (simp add: create_graphs_def sel time_axis_def)
  qed
qed

text \<open>
  The default options (threshold 1000) on the eight rows of \<open>sample_week\<close>, which have 10
  positive tests each.
\<close>

theorem C2_empty_series_raises_witness:
  "map positive sample_week = replicate 8 (I64 10) \<and>
   positive_start (get_options None None None) = 1000 \<and>
   create_graphs sharp_s (get_options None None None) sample_week = Inl IndexError"
proof -
  have h: "\<forall>r\<in>set sample_week.
      \<exists>p. to_float (positive r) = Some p \<and>
          p \<le> of_int (positive_start (get_options None None None))"
    by (simp add: sample_week_def sample_row_def get_options_def)
  have c: "map positive sample_week = replicate 8 (I64 10)" by code_simp
  have o: "average (get_options None None None) = 7"
    "positive_start (get_options None None None) = 1000"
    by (simp_all add: get_options_def)
  have "create_graphs sharp_s (get_options None None None) sample_week = Inl IndexError"
    using C2_empty_series_raises [OF h, of sharp_s] o(1) by simp
  then show ?thesis using c o(2) by simp
qed

text \<open>
  Claim C3, as the script computes it. A run that reaches the figure has a non-empty
  series of \<open>N\<close> dated rows, and its major ticks are \<open>\<lceil>N / 7\<rceil> + 1\<close> in number. The first
  tick is the Monday on or before the date of the last row of the series, and tick \<open>i\<close> is
  \<open>7 * i\<close> days after the first: the ticks walk forward from the anchor, seven days apart,
  and none lies before it.
\<close>

theorem C3_weekly_ticks:
  assumes "create_graphs cm opt df0 = Inr fig"
  shows "dates fig \<noteq> [] \<and> length (dates fig) = length (table fig) \<and>
         int (length (xticks fig)) = \<lceil>of_nat (length (dates fig)) / (7::rat)\<rceil> + 1 \<and>
         weekday (hd (xticks fig)) = 0 \<and>
         hd (xticks fig) \<le> last (dates fig) \<and> last (dates fig) < hd (xticks fig) + 7 \<and>
         (\<forall>i<length (xticks fig). xticks fig ! i = hd (xticks fig) + 7 * int i)"
proof -
  let ?ds = "dates fig"
  let ?start = "last ?ds - weekday (last ?ds)"
  note ax = time_axis_Inr [OF create_graphs_Inr(3) [OF assms]]
  have len: "length (xticks fig) = (length ?ds + 6) div 7 + 1" by (simp add: ax(2))
  have nth: "xticks fig ! i = ?start + 7 * int i" if "i < length (xticks fig)" for i
    using that len by (subst ax(2)) (simp del: upt_Suc)
  have "0 < length (xticks fig)" using len by simp
  then have "hd (xticks fig) = xticks fig ! 0" by (simp add: hd_conv_nth)
  then have hd: "hd (xticks fig) = ?start" using nth [of 0] len by simp
  have "length ?ds = length (table fig)"
    using to_datetime_list_length [OF create_graphs_Inr(2) [OF assms]] by simp
  moreover have "int (length (xticks fig)) = \<lceil>of_nat (length ?ds) / (7::rat)\<rceil> + 1"
    by (simp add: len ceiling_sevenths)
  moreover have "weekday (hd (xticks fig)) = 0" by (simp add: hd weekday_start)
  moreover have "hd (xticks fig) \<le> last ?ds" "last ?ds < hd (xticks fig) + 7"
    using weekday_range [of "last ?ds"] by (simp_all add: hd)
  moreover have "\<forall>i<length (xticks fig). xticks fig ! i = hd (xticks fig) + 7 * int i"
    using nth by (simp add: hd)
  ultimately show ?thesis using ax(1) by blast
qed

theorem C3_weekly_ticks_witness:
  "create_graphs sharp_s (get_options (Some 1) (Some (lit ''ny'')) (Some 5)) sample_pair = Inr sample_figure \<and>
   dates sample_figure = [ymd2ord 2020 3 29, ymd2ord 2020 3 30] \<and>
   xticks sample_figure = [ymd2ord 2020 3 30, ymd2ord 2020 4 6] \<and>
   int (length (xticks sample_figure)) = \<lceil>of_nat (length (dates sample_figure)) / (7::rat)\<rceil> + 1 \<and>
   weekday (hd (xticks sample_figure)) = 0 \<and>
   hd (xticks sample_figure) \<le> last (dates sample_figure) \<and>
   last (dates sample_figure) < hd (xticks sample_figure) + 7 \<and>
   xticks sample_figure ! 1 = hd (xticks sample_figure) + 7 * int 1"
proof -
  have "dates sample_figure = [ymd2ord 2020 3 29, ymd2ord 2020 3 30]"
       "xticks sample_figure = [ymd2ord 2020 3 30, ymd2ord 2020 4 6]"
    by (simp_all add: sample_figure_def)
  moreover have "(1::nat) < length (xticks sample_figure)" by (simp add: sample_figure_def)
  ultimately show ?thesis
    using sample_run C3_weekly_ticks [OF sample_run] by blast
qed

text \<open>
  On the eight ascending days of \<open>sample_week\<close>, 2020-03-23 to 2020-03-30, the ticks are
  2020-03-30, 2020-04-06 and 2020-04-13: they go forward from the anchor and leave the
  days before 2020-03-30, which is all of the data but its last day, without a tick.
\<close>

theorem C3_weekly_ticks_counterexample:
  "map_sum id (\<lambda>fig. (dates fig, xticks fig))
     (create_graphs sharp_s (get_options None None (Some 5)) sample_week) =
   Inr (map (ymd2ord 2020 3) [23, 24, 25, 26, 27, 28, 29, 30],
        [ymd2ord 2020 3 30, ymd2ord 2020 4 6, ymd2ord 2020 4 13]) \<and>
   ymd2ord 2020 3 23 < ymd2ord 2020 3 30 \<and>
   ymd2ord 2020 3 30 < ymd2ord 2020 4 6 \<and> ymd2ord 2020 4 6 < ymd2ord 2020 4 13"
  by code_simp

text \<open>
  Claim C4, as the script computes it. For a window \<open>w\<close> with \<open>1 \<le> w < 2^63\<close> and a series
  of \<open>n \<ge> w\<close> values, all of them defined, the rolling average of the script (the rolling
  mean shifted by \<open>-w\<close>) has the length of the series, is missing at exactly its final \<open>w\<close>
  positions and is defined at every position \<open>i\<close> before them, where it is the mean of the
  \<open>w\<close> values at positions \<open>i + 1\<close> to \<open>i + w\<close>. The claim also admits \<open>w = 0\<close>, where no
  position has an average.
\<close>

theorem C4_final_window_missing:
  assumes w: "0 < w" and b: "w < 2 ^ 63" and n: "nat w \<le> length xs"
    and def: "None \<notin> set xs"
  shows "\<exists>ys. rolling_avg w xs = Inr ys \<and> length ys = length xs \<and>
           (\<forall>i<length xs.
              ys ! i = (if i < length xs - nat w
                        then Some (sum_list (map (\<lambda>j. the (xs ! j)) [i + 1..<i + 1 + nat w]) /
                                   of_int w)
                        else None))"
proof -
  define ys where "ys = shift (- w) (rolling_mean (nat w) xs)"
  have r: "rolling_avg w xs = Inr ys" using w b by (simp add: rolling_avg_nonneg ys_def)
  have "ys ! i = (if i < length xs - nat w
                  then Some (sum_list (map (\<lambda>j. the (xs ! j)) [i + 1..<i + 1 + nat w]) /
                             of_int w)
                  else None)"
    if i: "i < length xs" for i
  proof (cases "i + nat w < length xs")
    case True
    let ?ws = "map (\<lambda>j. xs ! j) [Suc i..<Suc i + nat w]"
    have ws: "take (nat w) (drop (Suc i) xs) = ?ws" by (rule take_drop_window [OF True])
    have ne: "?ws \<noteq> []" using w by simp
    have nn: "None \<notin> set ?ws"
      using def unfolding ws [symmetric] by (meson in_set_dropD in_set_takeD)
    have len: "(of_nat (length ?ws) :: rat) = of_int w" using w by simp
    have m: "map the ?ws = map (\<lambda>j. the (xs ! j)) [Suc i..<Suc i + nat w]"
      by (simp add: comp_def del: upt_Suc)
    have "window_mean ?ws = Some (sum_list (map the ?ws) / of_nat (length ?ws))"
      by (rule iffD2 [OF window_mean_Some]) (intro conjI ne nn refl)
    then have v: "window_mean ?ws =
                 Some (sum_list (map (\<lambda>j. the (xs ! j)) [Suc i..<Suc i + nat w]) / of_int w)"
      unfolding m len .
    have "ys ! i = window_mean (take (nat w) (drop (Suc i) xs))"
      using rolling_avg_Inr(3) [OF r i] True w by simp
    then have y: "ys ! i =
                 Some (sum_list (map (\<lambda>j. the (xs ! j)) [Suc i..<Suc i + nat w]) / of_int w)"
      unfolding ws v .
    have "i < length xs - nat w" using True by arith
    then show ?thesis using y by (simp del: upt_Suc)
  next
    case False
    then have "ys ! i = None" using rolling_avg_Inr(3) [OF r i] by simp
    moreover have "\<not> i < length xs - nat w" using False by arith
    ultimately show ?thesis by simp
  qed
  then show ?thesis using r rolling_avg_Inr(2) [OF r] by blast
qed

text \<open>A window of 3 on the values 1 to 5: the means of 2, 3, 4 and of 3, 4, 5.\<close>

theorem C4_final_window_missing_witness:
  "(\<exists>ys. rolling_avg 3 [Some 1, Some 2, Some 3, Some 4, Some 5] = Inr ys \<and>
         length ys = length [Some 1, Some 2, Some 3, Some 4, Some (5::rat)] \<and>
         (\<forall>i<length [Some 1, Some 2, Some 3, Some 4, Some (5::rat)].
            ys ! i =
              (if i < length [Some 1, Some 2, Some 3, Some 4, Some (5::rat)] - nat 3
               then Some (sum_list (map (\<lambda>j. the ([Some 1, Some 2, Some 3, Some 4, Some 5] ! j))
                                      [i + 1..<i + 1 + nat 3]) / of_int 3)
               else None))) \<and>
   rolling_avg 3 [Some 1, Some 2, Some 3, Some 4, Some 5] =
     Inr [Some 3, Some 4, None, None, None]"
proof -
  have 1: "(0::int) < 3" "(3::int) < 2 ^ 63"
    "nat 3 \<le> length [Some 1, Some 2, Some 3, Some 4, Some (5::rat)]"
    "None \<notin> set [Some 1, Some 2, Some 3, Some 4, Some (5::rat)]"
    by simp_all
  have 2: "rolling_avg 3 [Some 1, Some 2, Some 3, Some 4, Some 5] =
     Inr [Some 3, Some 4, None, None, None]"
    by code_simp
  show ?thesis
    by (rule conjI [OF C4_final_window_missing [OF 1] 2])
qed

text \<open>
  With \<^verbatim>\<open>--average 0\<close> the series has length \<open>3 \<ge> 0\<close> and all of its values are defined, but
  no position has an average, where the claim leaves none without one.
\<close>

theorem C4_final_window_missing_counterexample:
  "rolling_avg 0 [Some 1, Some 2, Some 3] = Inr [None, None, None]"
  by code_simp

text \<open>
  Claim C5, as the script computes it. The rolling average of a constant series of \<open>n\<close>
  values \<open>c\<close>, for a window \<open>w\<close> with \<open>1 \<le> w < 2^63\<close>, is \<open>c\<close> at the first \<open>n - w\<close>
  positions and missing at the trailing \<open>w\<close> positions (at all \<open>n\<close> when \<open>n < w\<close>): the
  shift is by the whole window, so \<open>w\<close> points are missing and not \<open>w - 1\<close>.
\<close>

theorem C5_constant_series:
  assumes w: "0 < w" and b: "w < 2 ^ 63"
  shows "rolling_avg w (replicate n (Some c)) =
           Inr (replicate (n - nat w) (Some c) @ replicate (min (nat w) n) None)"
proof -
  let ?xs = "replicate n (Some c)"
  define ys where "ys = shift (- w) (rolling_mean (nat w) ?xs)"
  have r: "rolling_avg w ?xs = Inr ys" using w b by (simp add: rolling_avg_nonneg ys_def)
  have "ys = replicate (n - nat w) (Some c) @ replicate (min (nat w) n) None"
  proof (rule nth_equalityI)
    show "length ys = length (replicate (n - nat w) (Some c) @ replicate (min (nat w) n) None)"
      using rolling_avg_Inr(2) [OF r] by auto
  next
    fix i assume "i < length ys"
    then have i: "i < length ?xs" using rolling_avg_Inr(2) [OF r] by simp
    show "ys ! i = (replicate (n - nat w) (Some c) @ replicate (min (nat w) n) None) ! i"
    proof (cases "i + nat w < n")
      case True
      then have "take (nat w) (drop (Suc i) ?xs) = replicate (nat w) (Some c)"
        by (simp add: min_def)
      then have "ys ! i = Some c"
        using rolling_avg_Inr(3) [OF r i] True w by (simp add: window_mean_replicate)
      moreover have "i < n - nat w" using True by arith
      ultimately show ?thesis by (simp add: nth_append)
    next
      case False
      then have "ys ! i = None" using rolling_avg_Inr(3) [OF r i] by simp
      moreover have "i - (n - nat w) < min (nat w) n" using False i w by simp arith
      ultimately show ?thesis using False by (simp add: nth_append)
    qed
  qed
  then show ?thesis using r by simp
qed

theorem C5_constant_series_witness:
  "rolling_avg 2 (replicate 5 (Some 4)) =
     Inr (replicate (5 - nat 2) (Some 4) @ replicate (min (nat 2) 5) None)"
  using C5_constant_series [of 2 5 4] by simp

text \<open>
  With ten values 5 and a window of 7 the last seven positions are missing: position 3 is
  not among the trailing six and has no average.
\<close>

theorem C5_constant_series_counterexample:
  "rolling_avg 7 (replicate 10 (Some 5)) =
     Inr [Some 5, Some 5, Some 5, None, None, None, None, None, None, None]"
  by code_simp




text \<open>
  Claim C7. The filter keeps exactly the rows whose \<open>positive\<close> is a number strictly
  above the threshold, so a row with \<open>positive\<close> equal to the threshold is dropped. When
  the \<open>positive\<close> column is defined and non-decreasing and \<open>k\<close> is the first row above
  the threshold, the filtered series is the input from row \<open>k\<close> on.
\<close>

theorem C7_threshold_filter:
  "select_rows t df =
     filter (\<lambda>r. \<exists>p. to_float (positive r) = Some p \<and> of_int t < p) df \<and>
   (\<forall>r. to_float (positive r) = Some (of_int t) \<longrightarrow> r \<notin> set (select_rows t df)) \<and>
   (None \<notin> set (map (\<lambda>r. to_float (positive r)) df) \<and>
    sorted (map (\<lambda>r. the (to_float (positive r))) df) \<and>
    k < length df \<and> of_int t < the (to_float (positive (df ! k))) \<and>
    (\<forall>i<k. the (to_float (positive (df ! i))) \<le> of_int t)
    \<longrightarrow> select_rows t df = drop k df \<and> hd (select_rows t df) = df ! k)"
proof (intro conjI allI impI)
  show "select_rows t df =
          filter (\<lambda>r. \<exists>p. to_float (positive r) = Some p \<and> of_int t < p) df"
    by (simp add: select_rows_def gt_iff)
  show "r \<notin> set (select_rows t df)" if "to_float (positive r) = Some (of_int t)" for r
    using that by (simp add: select_rows_def gt_iff)
  assume h: "None \<notin> set (map (\<lambda>r. to_float (positive r)) df) \<and>
    sorted (map (\<lambda>r. the (to_float (positive r))) df) \<and>
    k < length df \<and> of_int t < the (to_float (positive (df ! k))) \<and>
    (\<forall>i<k. the (to_float (positive (df ! i))) \<le> of_int t)"
  then show d: "select_rows t df = drop k df" by (intro select_rows_crossing) simp_all
  show "hd (select_rows t df) = df ! k" using h by (simp add: d hd_drop_conv_nth)
qed

text \<open>
  Four days with 3, 5, 5 and 8 positive tests and the threshold 5: the two rows at the
  threshold go, and the series starts at row 3.
\<close>

theorem C7_threshold_filter_witness:
  "select_rows 5 [sample_row 20200326 3 3, sample_row 20200327 5 2,
                  sample_row 20200328 5 0, sample_row 20200329 8 3] =
     [sample_row 20200329 8 3]"
proof -
  let ?df = "[sample_row 20200326 3 3, sample_row 20200327 5 2,
              sample_row 20200328 5 0, sample_row 20200329 8 3]"
  have 1: "None \<notin> set (map (\<lambda>r. to_float (positive r)) ?df)"
    by (simp add: sample_row_def)
  have 2: "sorted (map (\<lambda>r. the (to_float (positive r))) ?df)"
    by (simp add: sample_row_def)
  have 3: "(3::nat) < length ?df" by simp
  have 4: "of_int 5 < the (to_float (positive (?df ! 3)))" by (simp add: sample_row_def)
  have 5: "\<forall>i<3. the (to_float (positive (?df ! i))) \<le> of_int 5"
    by (simp add: sample_row_def numeral_3_eq_3 less_Suc_eq)
  from C7_threshold_filter [of 5 ?df 3] 1 2 3 4 5 have "select_rows 5 ?df = drop 3 ?df"
    by blast
  then show ?thesis by simp
qed







text \<open>
  Claim C10. The table of a run, cut back to the six columns of the feed, is the list of
  the input rows with \<open>positive\<close> above the threshold, in their order: filtering and
  derivation change no value of \<open>date\<close>, \<open>positive\<close>, \<open>negative\<close>, \<open>positiveIncrease\<close>,
  \<open>deathIncrease\<close> and \<open>death\<close>.
\<close>

theorem C10_original_fields_kept:
  assumes "create_graphs cm opt df0 = Inr fig"
  shows "map DailyRecord.truncate (table fig) =
           filter (\<lambda>r. gt (positive r) (positive_start opt)) df0 \<and>
         map date (table fig) = map date (select_rows (positive_start opt) df0) \<and>
         map positive (table fig) = map positive (select_rows (positive_start opt) df0) \<and>
         map negative (table fig) = map negative (select_rows (positive_start opt) df0) \<and>
         map positiveIncrease (table fig) =
           map positiveIncrease (select_rows (positive_start opt) df0) \<and>
         map deathIncrease (table fig) =
           map deathIncrease (select_rows (positive_start opt) df0) \<and>
         map death (table fig) = map death (select_rows (positive_start opt) df0)"
proof -
  have t: "map DailyRecord.truncate (table fig) = select_rows (positive_start opt) df0"
    using derive_truncate [OF create_graphs_Inr(1) [OF assms]] .
  have "map date (table fig) = map date (map DailyRecord.truncate (table fig))"
       "map positive (table fig) = map positive (map DailyRecord.truncate (table fig))"
       "map negative (table fig) = map negative (map DailyRecord.truncate (table fig))"
       "map positiveIncrease (table fig) =
          map positiveIncrease (map DailyRecord.truncate (table fig))"
       "map deathIncrease (table fig) =
          map deathIncrease (map DailyRecord.truncate (table fig))"
       "map death (table fig) = map death (map DailyRecord.truncate (table fig))"
    by simp_all
  then show ?thesis unfolding t by (simp add: select_rows_def)
qed

theorem C10_original_fields_kept_witness:
  "create_graphs sharp_s (get_options (Some 1) (Some (lit ''ny'')) (Some 5)) sample_pair =
     Inr sample_figure \<and>
   map DailyRecord.truncate (table sample_figure) = sample_pair \<and>
   map date (table sample_figure) = map date sample_pair \<and>
   map positive (table sample_figure) = map positive sample_pair \<and>
   map negative (table sample_figure) = map negative sample_pair \<and>
   map positiveIncrease (table sample_figure) = map positiveIncrease sample_pair \<and>
   map deathIncrease (table sample_figure) = map deathIncrease sample_pair \<and>
   map death (table sample_figure) = map death sample_pair"
proof -
  have sel: "select_rows (positive_start (get_options (Some 1) (Some (lit ''ny'')) (Some 5)))
               sample_pair = sample_pair"
    by code_simp
  then have "filter (\<lambda>r. gt (positive r) (positive_start (get_options (Some 1) (Some (lit ''ny'')) (Some 5))))
               sample_pair = sample_pair"
    by (simp add: select_rows_def)
  then show ?thesis
    using sample_run C10_original_fields_kept [OF sample_run] sel by simp
qed

end
